theory Spec2Isabelle
  imports Main
begin

section \<open>Errors, options and observable events\<close>

text \<open>
  A Go \<^verbatim>\<open>error\<close> is a value; \<^verbatim>\<open>nil\<close> is \<open>None\<close> of \<open>error option\<close>. Errors made
  by \<^verbatim>\<open>fmt.Errorf\<close> in the two command files have a constructor each, carrying the
  arguments of the format string. Errors that come from a collaborator (the SDK, the
  operating system, a helper of package \<^verbatim>\<open>lib\<close> that lives in another file) are
  \<open>ExternalError\<close> with their message.
\<close>

datatype error =
    ExternalError string
  | InvalidMarker string error
  | ObjectKeyEmpty
  | IsDirError string
  | BiggerThanMax string int
  | MetaOnExistingObject
  | IndexOutOfRange

text \<open>
  \<^verbatim>\<open>oss.Option\<close>: the request options the two commands build. \<open>oss_Header\<close> stands
  for an option produced by \<^verbatim>\<open>getOSSOptions\<close> from a parsed \<^verbatim>\<open>--meta\<close> header.
\<close>

datatype oss_Option =
    oss_Prefix string
  | oss_Marker string
  | oss_Header string string
  | oss_Progress

record CloudBoxProperties =
  box_Id :: string
  box_Name :: string
  box_Owner :: string
  box_Region :: string
  box_ControlEndpoint :: string
  box_DataEndpoint :: string

record ListCloudBoxResult =
  Prefix :: string
  NextMarker :: string
  IsTruncated :: bool
  CloudBoxes :: "CloudBoxProperties list"

text \<open>
  Everything a command does to the outside is an event, appended to a trace in program
  order: a call of a collaborator, or a line written to standard output.
\<close>

datatype event =
    CallOssClient string
  | CallListCloudBoxes "oss_Option list"
  | PrintHeader
  | PrintBox CloudBoxProperties
  | CallStat string
  | CallBucket string
  | CallIsObjectExist string
  | CallGetObjectMeta string
  | CallOpenFile string
  | CallAppendObject string int "oss_Option list"
  | PrintSummary int int

section \<open>The listing command (lcb.go)\<close>

text \<open>
  The service behind \<^verbatim>\<open>client.ListCloudBoxes\<close> is a script: the responses it gives,
  in order, each the pair \<^verbatim>\<open>(result, err)\<close> the SDK call returns. A call takes the
  next response. When the script is used up the service does not answer and the call does
  not return: its value is \<open>None\<close>. The request is part of the trace either way.
\<close>

record world =
  script :: "(ListCloudBoxResult \<times> error option) list"
  trace :: "event list"

definition emit :: "event \<Rightarrow> world \<Rightarrow> world" where
  "emit ev w = w\<lparr>trace := trace w @ [ev]\<rparr>"

definition ListCloudBoxes ::
  "oss_Option list \<Rightarrow> world \<Rightarrow> (ListCloudBoxResult \<times> error option) option \<times> world" where
  "ListCloudBoxes options w =
     (case script w of
        [] \<Rightarrow> (None, emit (CallListCloudBoxes options) w)
      | r # rs \<Rightarrow> (Some r, emit (CallListCloudBoxes options) (w\<lparr>script := rs\<rparr>)))"

text \<open>
  \<^verbatim>\<open>Command\<close>: the arguments, and the values \<^verbatim>\<open>GetInt\<close> and \<^verbatim>\<open>GetString\<close> read
  from the option map under the option's name (both commands drop the error of these
  reads).
\<close>

record Command =
  args :: "string list"
  OptionLimitedNum :: int
  OptionMarker :: string
  OptionRetryTimes :: int
  OptionEncodingType :: string
  OptionMeta :: string

text \<open>
  \<^verbatim>\<open>for i := 1; ; i++\<close> of \<^verbatim>\<open>ossListCloudBoxesRetry\<close>, from counter \<open>i\<close>. The
  counter never passes \<open>retryTimes\<close> before the loop returns, so the 64-bit counter does
  not wrap and \<open>int\<close> is exact.
\<close>

function ossListCloudBoxesRetry_from ::
  "int \<Rightarrow> int \<Rightarrow> oss_Option list \<Rightarrow> world
    \<Rightarrow> (ListCloudBoxResult \<times> error option) option \<times> world" where
  "ossListCloudBoxesRetry_from rt i options w =
     (case ListCloudBoxes options w of
        (None, w') \<Rightarrow> (None, w')
      | (Some (lbr, err), w') \<Rightarrow>
          if err = None \<or> i \<ge> rt then (Some (lbr, err), w')
          else ossListCloudBoxesRetry_from rt (i + 1) options w')"
  by pat_completeness auto
termination
  by (relation "measure (\<lambda>(rt, i, options, w). nat (rt - i))") auto

definition ossListCloudBoxesRetry ::
  "Command \<Rightarrow> oss_Option list \<Rightarrow> world
    \<Rightarrow> (ListCloudBoxResult \<times> error option) option \<times> world" where
  "ossListCloudBoxesRetry cmd options w =
     ossListCloudBoxesRetry_from (OptionRetryTimes cmd) 1 options w"

text \<open>
  The helpers of package \<^verbatim>\<open>lib\<close> that the commands call and that are defined in
  other files are parameters of the model: what each returns for its arguments.
  \<^verbatim>\<open>getRawMarker\<close> returns a string and an error, and the caller reads the string also
  when the error is set, so it is a pair.
\<close>

record CloudURL =
  bucket :: string
  object :: string

record FileInfo =
  IsDir :: bool
  Size :: int

record helpers =
  CloudURLFromString :: "string \<Rightarrow> string \<Rightarrow> error + CloudURL"
  getRawMarker :: "string \<Rightarrow> string \<times> error option"
  ossClient :: "string \<Rightarrow> error option"
  GetCloudUrl :: "string \<Rightarrow> string \<Rightarrow> error + CloudURL"
  MaxAppendObjectSize :: int
  parseHeaders :: "string \<Rightarrow> bool \<Rightarrow> error + (string \<times> string) list"
  getOSSOptions :: "(string \<times> string) list \<Rightarrow> error + oss_Option list"

definition call_ossClient :: "helpers \<Rightarrow> string \<Rightarrow> world \<Rightarrow> error option \<times> world" where
  "call_ossClient H name w = (ossClient H name, emit (CallOssClient name) w)"

text \<open>
  \<^verbatim>\<open>for _, box := range lcr.CloudBoxes\<close>: prints a row per box and counts it, and
  breaks at the limit. Returns the counter.
\<close>

fun print_boxes :: "int \<Rightarrow> CloudBoxProperties list \<Rightarrow> int \<Rightarrow> world \<Rightarrow> int \<times> world" where
  "print_boxes lim [] num w = (num, w)"
| "print_boxes lim (box # boxes) num w =
     (if lim \<ge> 0 \<and> num \<ge> lim then (num, w)
      else print_boxes lim boxes (num + 1) (emit (PrintBox box) w))"

lemma script_emit: "script (emit ev w) = script w"
  by (simp add: emit_def)

lemma script_print_boxes: "script (snd (print_boxes lim boxes num w)) = script w"
  by (induction boxes arbitrary: num w) (simp_all add: script_emit)

lemma ListCloudBoxes_consumes:
  "ListCloudBoxes options w = (Some r, w') \<Longrightarrow> length (script w') < length (script w)"
  by (auto simp: ListCloudBoxes_def script_emit split: list.splits)

lemma ossListCloudBoxesRetry_from_consumes:
  "ossListCloudBoxesRetry_from rt i options w = (Some r, w')
    \<Longrightarrow> length (script w') < length (script w)"
proof (induction rt i options w rule: ossListCloudBoxesRetry_from.induct)
  case (1 rt i options w)
  obtain a w1 where call: "ListCloudBoxes options w = (a, w1)"
    by (cases "ListCloudBoxes options w")
  show ?case
  proof (cases a)
    case None
    with call "1.prems" show ?thesis by simp
  next
    case (Some p)
    obtain lbr err where p: "p = (lbr, err)" by (cases p)
    have less: "length (script w1) < length (script w)"
      using call Some by (auto dest: ListCloudBoxes_consumes)
    show ?thesis
    proof (cases "err = None \<or> i \<ge> rt")
      case True
      with call Some p "1.prems" less show ?thesis by auto
    next
      case False
      with call Some p "1.prems"
      have "ossListCloudBoxesRetry_from rt (i + 1) options w1 = (Some r, w')"
        by simp
      moreover have "(a, w1) = ListCloudBoxes options w" using call by simp
      ultimately have "length (script w') < length (script w1)"
        using "1.IH" Some p False by blast
      with less show ?thesis by simp
    qed
  qed
qed

declare ossListCloudBoxesRetry_from.simps [simp del]

lemma ossListCloudBoxesRetry_consumes:
  "(Some r, w') = ossListCloudBoxesRetry cmd options w
    \<Longrightarrow> length (script w') < length (script w)"
  using ossListCloudBoxesRetry_from_consumes [of "OptionRetryTimes cmd" 1 options w r w']
  by (simp add: ossListCloudBoxesRetry_def)

text \<open>
  \<^verbatim>\<open>for limitedNum < 0 || num < limitedNum\<close> of \<^verbatim>\<open>RunCommand\<close>, from the state
  \<open>(pre, marker, num)\<close>. The result is \<open>Some\<close> of the error the command returns
  (\<open>Some None\<close> for \<^verbatim>\<open>nil\<close>), or \<open>None\<close> when a request is never answered. The
  counter \<open>num\<close> is an \<^verbatim>\<open>int64\<close>; with a limit it stays at or below the limit, and
  without one it only decides whether the header line is printed.
\<close>

function RunCommand_loop ::
  "Command \<Rightarrow> int \<Rightarrow> oss_Option \<Rightarrow> oss_Option \<Rightarrow> int \<Rightarrow> world
    \<Rightarrow> error option option \<times> world" where
  "RunCommand_loop cmd lim pre mark num w =
     (if lim < 0 \<or> num < lim then
        (case ossListCloudBoxesRetry cmd [pre, mark] w of
           (None, w1) \<Rightarrow> (None, w1)
         | (Some (lcr, Some err), w1) \<Rightarrow> (Some (Some err), w1)
         | (Some (lcr, None), w1) \<Rightarrow>
             (let w2 = (if num = 0 \<and> length (CloudBoxes lcr) > 0 then emit PrintHeader w1 else w1);
                  nw = print_boxes lim (CloudBoxes lcr) num w2
              in if \<not> IsTruncated lcr then (Some None, snd nw)
                 else RunCommand_loop cmd lim (oss_Prefix (Prefix lcr))
                        (oss_Marker (NextMarker lcr)) (fst nw) (snd nw)))
      else (Some None, w))"
  by pat_completeness auto
termination RunCommand_loop
proof (relation "measure (\<lambda>(cmd, lim, pre, mark, num, w). length (script w))", goal_cases)
  case 1
  show ?case by simp
next
  case (2 cmd lim pre mark num w x1 x2 a lcr err w2 nw)
  then have "(Some (lcr, None), x2) = ossListCloudBoxesRetry cmd [pre, mark] w"
    by simp
  then have "length (script x2) < length (script w)"
    by (rule ossListCloudBoxesRetry_consumes)
  with 2 show ?case
    by (simp add: split_beta script_print_boxes script_emit)
qed

text \<open>
  The prefix of \<^verbatim>\<open>LcbCommand.RunCommand\<close> (lines 107 to 114): the bucket of the first
  argument when there is one, else the empty string.
\<close>

definition listing_prefix :: "helpers \<Rightarrow> Command \<Rightarrow> error + string" where
  "listing_prefix H cmd =
     (if length (args cmd) > 0
      then (case CloudURLFromString H (args cmd ! 0) [] of
              Inl err \<Rightarrow> Inl err
            | Inr cloudURL \<Rightarrow> Inr (bucket cloudURL))
      else Inr [])"

text \<open>
  \<^verbatim>\<open>LcbCommand.RunCommand\<close>. The string that \<^verbatim>\<open>getRawMarker\<close> returns is bound to a
  variable of the \<^verbatim>\<open>if\<close> statement only: the error message reads it, and the listing
  below reads the option value.
\<close>

definition LcbCommand_RunCommand ::
  "helpers \<Rightarrow> Command \<Rightarrow> world \<Rightarrow> error option option \<times> world" where
  "LcbCommand_RunCommand H cmd w =
     (case listing_prefix H cmd of
        Inl err \<Rightarrow> (Some (Some err), w)
      | Inr prefix \<Rightarrow>
          (let limitedNum = OptionLimitedNum cmd; vmarker = OptionMarker cmd in
           case getRawMarker H vmarker of
             (vmarker', Some err) \<Rightarrow> (Some (Some (InvalidMarker vmarker' err)), w)
           | (vmarker', None) \<Rightarrow>
               (case call_ossClient H [] w of
                  (Some err, w1) \<Rightarrow> (Some (Some err), w1)
                | (None, w1) \<Rightarrow>
                    RunCommand_loop cmd limitedNum (oss_Prefix prefix) (oss_Marker vmarker) 0 w1)))"

section \<open>The append command (append_file.go)\<close>

text \<open>
  The operating system, \<^verbatim>\<open>strconv\<close> and the SDK's bucket, as the append command uses
  them: what each call returns for its arguments. \<^verbatim>\<open>GetObjectMeta\<close> returns the
  response header, read with \<^verbatim>\<open>Get\<close> (the empty string for a missing key).
  \<open>ParseInt s\<close> is \<^verbatim>\<open>strconv.ParseInt(s, 10, 64)\<close>.
\<close>

record platform =
  Stat :: "string \<Rightarrow> error + FileInfo"
  OpenFile :: "string \<Rightarrow> error option"
  Bucket :: "string \<Rightarrow> error option"
  IsObjectExist :: "string \<Rightarrow> error + bool"
  GetObjectMeta :: "string \<Rightarrow> error + (string \<Rightarrow> string)"
  ParseInt :: "string \<Rightarrow> error + int"
  AppendObject :: "string \<Rightarrow> int \<Rightarrow> oss_Option list \<Rightarrow> error + int"

record appendFileOptionType =
  bucketName :: string
  objectName :: string
  encodingType :: string
  fileName :: string
  fileSize :: int
  ossMeta :: string

text \<open>
  \<^verbatim>\<open>AppendFileCommand.AppendFromFile\<close>. The summary line is the event \<open>PrintSummary\<close>
  with the file size and the new position; the speed it also prints is a quotient of
  floats over wall-clock time and is left out, as are the progress listener and the
  deferred \<^verbatim>\<open>file.Close\<close>.
\<close>

definition AppendFromFile ::
  "helpers \<Rightarrow> platform \<Rightarrow> appendFileOptionType \<Rightarrow> int \<Rightarrow> event list
    \<Rightarrow> error option \<times> event list" where
  "AppendFromFile H P afOption position tr =
     (let tr1 = tr @ [CallOpenFile (fileName afOption)] in
      case OpenFile P (fileName afOption) of
        Some err \<Rightarrow> (Some err, tr1)
      | None \<Rightarrow>
          (case (if ossMeta afOption \<noteq> []
                 then (case parseHeaders H (ossMeta afOption) False of
                         Inl err \<Rightarrow> Inl err
                       | Inr metas \<Rightarrow> getOSSOptions H metas)
                 else Inr []) of
             Inl err \<Rightarrow> (Some err, tr1)
           | Inr options \<Rightarrow>
               (let options' = options @ [oss_Progress];
                    tr2 = tr1 @ [CallAppendObject (objectName afOption) position options']
                in case AppendObject P (objectName afOption) position options' of
                     Inl err \<Rightarrow> (Some err, tr2)
                   | Inr newPosition \<Rightarrow>
                       (None, tr2 @ [PrintSummary (fileSize afOption) newPosition]))))"

text \<open>
  The starting position of \<^verbatim>\<open>RunCommand\<close> (lines 213 to 225): zero, or the parsed
  \<^verbatim>\<open>Content-Length\<close> of the metadata call when the object exists.
\<close>

definition start_position ::
  "platform \<Rightarrow> string \<Rightarrow> bool \<Rightarrow> event list \<Rightarrow> (error + int) \<times> event list" where
  "start_position P name isExist tr =
     (if isExist then
        (let tr1 = tr @ [CallGetObjectMeta name] in
         case GetObjectMeta P name of
           Inl err \<Rightarrow> (Inl err, tr1)
         | Inr props \<Rightarrow> (ParseInt P (props ''Content-Length''), tr1))
      else (Inr 0, tr))"

text \<open>
  \<^verbatim>\<open>AppendFileCommand.RunCommand\<close>. \<^verbatim>\<open>args[1]\<close> is read first: with fewer than two
  arguments the Go code panics there, which is the result \<open>IndexOutOfRange\<close>. The
  fields of \<^verbatim>\<open>afc.afOption\<close> are assigned one by one in the source; the record is
  built here where the last of them is known, and passed on to \<open>AppendFromFile\<close>.
\<close>

definition AppendFileCommand_RunCommand ::
  "helpers \<Rightarrow> platform \<Rightarrow> Command \<Rightarrow> event list \<Rightarrow> error option \<times> event list" where
  "AppendFileCommand_RunCommand H P cmd tr =
     (if length (args cmd) < 2 then (Some IndexOutOfRange, tr)
      else case GetCloudUrl H (args cmd ! 1) (OptionEncodingType cmd) of
        Inl err \<Rightarrow> (Some err, tr)
      | Inr srcBucketUrL \<Rightarrow>
          if object srcBucketUrL = [] then (Some ObjectKeyEmpty, tr)
          else
            (let name = args cmd ! 0; tr1 = tr @ [CallStat name] in
             case Stat P name of
               Inl err \<Rightarrow> (Some err, tr1)
             | Inr stat \<Rightarrow>
                 if IsDir stat then (Some (IsDirError name), tr1)
                 else if Size stat > MaxAppendObjectSize H
                 then (Some (BiggerThanMax name (MaxAppendObjectSize H)), tr1)
                 else
                   (let afOption = \<lparr>bucketName = bucket srcBucketUrL,
                                     objectName = object srcBucketUrL,
                                     encodingType = OptionEncodingType cmd,
                                     fileName = name,
                                     fileSize = Size stat,
                                     ossMeta = OptionMeta cmd\<rparr>;
                        tr2 = tr1 @ [CallOssClient (bucketName afOption)]
                    in case ossClient H (bucketName afOption) of
                         Some err \<Rightarrow> (Some err, tr2)
                       | None \<Rightarrow>
                           (let tr3 = tr2 @ [CallBucket (bucketName afOption)] in
                            case Bucket P (bucketName afOption) of
                              Some err \<Rightarrow> (Some err, tr3)
                            | None \<Rightarrow>
                                (let tr4 = tr3 @ [CallIsObjectExist (objectName afOption)] in
                                 case IsObjectExist P (objectName afOption) of
                                   Inl err \<Rightarrow> (Some err, tr4)
                                 | Inr isExist \<Rightarrow>
                                     if isExist \<and> ossMeta afOption \<noteq> []
                                     then (Some MetaOnExistingObject, tr4)
                                     else
                                       (case start_position P (objectName afOption) isExist tr4 of
                                          (Inl err, tr5) \<Rightarrow> (Some err, tr5)
                                        | (Inr position, tr5) \<Rightarrow>
                                            AppendFromFile H P afOption position tr5))))))"

section \<open>The marker check\<close>

text \<open>
  \<^verbatim>\<open>url.QueryUnescape\<close> of the Go standard library: \<^verbatim>\<open>%XY\<close> with two hexadecimal
  digits is the byte they denote, \<^verbatim>\<open>+\<close> is a space, every other byte is itself; a
  \<^verbatim>\<open>%\<close> that is not followed by two hexadecimal digits is an error (\<open>None\<close>).
\<close>

definition ishex :: "char \<Rightarrow> bool" where
  "ishex c = (c \<in> set ''0123456789abcdefABCDEF'')"

definition unhex :: "char \<Rightarrow> nat" where
  "unhex c =
     (let n = (of_char c :: nat) in
      if 48 \<le> n \<and> n \<le> 57 then n - 48
      else if 97 \<le> n \<and> n \<le> 102 then n - 97 + 10
      else if 65 \<le> n \<and> n \<le> 70 then n - 65 + 10
      else 0)"

fun QueryUnescape :: "string \<Rightarrow> string option" where
  "QueryUnescape [] = Some []"
| "QueryUnescape (c # cs) =
     (if c = CHR ''%'' then
        (case cs of
           h1 # h2 # rest \<Rightarrow>
             if ishex h1 \<and> ishex h2
             then map_option ((#) (char_of (16 * unhex h1 + unhex h2))) (QueryUnescape rest)
             else None
         | _ \<Rightarrow> None)
      else if c = CHR ''+'' then map_option ((#) CHR '' '') (QueryUnescape cs)
      else map_option ((#) c) (QueryUnescape cs))"

text \<open>
  Modelled from the spec: \<^verbatim>\<open>Command.getRawMarker\<close>, a method of this repository
  that is not in the two command files. The spec (4.2, input validation): "a marker value
  must be URL-decodable; malformed markers are rejected before any request is issued".
  So the helper URL-decodes the marker and returns the decoded string, or an error when the
  marker cannot be decoded.
\<close>

definition getRawMarker_spec :: "string \<Rightarrow> string \<times> error option" where
  "getRawMarker_spec str =
     (case QueryUnescape str of
        None \<Rightarrow> ([], Some (ExternalError ''invalid URL escape''))
      | Some raw \<Rightarrow> (raw, None))"

section \<open>What a run shows\<close>

text \<open>The rows printed and the listing requests issued, read off a trace in order.\<close>

fun box_of :: "event \<Rightarrow> CloudBoxProperties option" where
  "box_of (PrintBox b) = Some b"
| "box_of _ = None"

fun request_of :: "event \<Rightarrow> oss_Option list option" where
  "request_of (CallListCloudBoxes options) = Some options"
| "request_of _ = None"

definition printed_boxes :: "event list \<Rightarrow> CloudBoxProperties list" where
  "printed_boxes tr = List.map_filter box_of tr"

definition list_requests :: "event list \<Rightarrow> oss_Option list list" where
  "list_requests tr = List.map_filter request_of tr"

text \<open>
  The calls that go to the service over the network. \<^verbatim>\<open>ossClient\<close> and
  \<^verbatim>\<open>client.Bucket\<close> build local objects, \<^verbatim>\<open>os.Stat\<close> and \<^verbatim>\<open>os.OpenFile\<close> go
  to the file system.
\<close>

fun is_network_call :: "event \<Rightarrow> bool" where
  "is_network_call (CallListCloudBoxes options) = True"
| "is_network_call (CallIsObjectExist name) = True"
| "is_network_call (CallGetObjectMeta name) = True"
| "is_network_call (CallAppendObject name position options) = True"
| "is_network_call _ = False"

fun is_open_file :: "event \<Rightarrow> bool" where
  "is_open_file (CallOpenFile name) = True"
| "is_open_file _ = False"

fun is_append_call :: "event \<Rightarrow> bool" where
  "is_append_call (CallAppendObject name position options) = True"
| "is_append_call _ = False"

text \<open>
  A sequence of listing pages as the service delivers it: every page but the last says
  that more follow, the last says that none does.
\<close>

fun page_sequence :: "ListCloudBoxResult list \<Rightarrow> bool" where
  "page_sequence [] = False"
| "page_sequence [p] = (\<not> IsTruncated p)"
| "page_sequence (p # q # ps) = (IsTruncated p \<and> page_sequence (q # ps))"

text \<open>The rows a run may still print: all of them without a limit, else up to the limit.\<close>

definition allowed :: "int \<Rightarrow> int \<Rightarrow> 'a list \<Rightarrow> 'a list" where
  "allowed lim num xs = (if lim < 0 then xs else take (nat (lim - num)) xs)"

text \<open>
  The pages a run asks for, from a counter value: the next page is asked for while there
  is no limit or the rows counted so far are fewer than the limit.
\<close>

fun fetched :: "int \<Rightarrow> int \<Rightarrow> ListCloudBoxResult list \<Rightarrow> ListCloudBoxResult list" where
  "fetched lim num [] = []"
| "fetched lim num (p # ps) =
     (if lim < 0 \<or> num < lim
      then p # fetched lim (num + int (length (allowed lim num (CloudBoxes p)))) ps
      else [])"

text \<open>
  The requests that walk a list of pages from a first request: each later request carries
  the prefix and the next marker that the page before it returned.
\<close>

fun cursors :: "oss_Option list \<Rightarrow> ListCloudBoxResult list \<Rightarrow> oss_Option list list" where
  "cursors c [] = []"
| "cursors c (p # ps) = c # cursors [oss_Prefix (Prefix p), oss_Marker (NextMarker p)] ps"

subsection \<open>Concrete inputs\<close>

definition example_box :: "string \<Rightarrow> CloudBoxProperties" where
  "example_box name = \<lparr>box_Id = name, box_Name = name, box_Owner = ''owner'', box_Region = ''region'',
     box_ControlEndpoint = ''control'', box_DataEndpoint = ''data''\<rparr>"

definition example_page :: "string \<Rightarrow> bool \<Rightarrow> string list \<Rightarrow> ListCloudBoxResult" where
  "example_page next truncated names =
     \<lparr>Prefix = ''cb'', NextMarker = next, IsTruncated = truncated, CloudBoxes = map example_box names\<rparr>"

definition example_lcb :: "int \<Rightarrow> int \<Rightarrow> string \<Rightarrow> Command" where
  "example_lcb lim retries mark =
     \<lparr>args = [], OptionLimitedNum = lim, OptionMarker = mark, OptionRetryTimes = retries,
      OptionEncodingType = [], OptionMeta = []\<rparr>"

definition example_append :: "string \<Rightarrow> Command" where
  "example_append m =
     \<lparr>args = [''local.bin'', ''oss://bkt/obj''], OptionLimitedNum = 0, OptionMarker = [],
      OptionRetryTimes = 0, OptionEncodingType = [], OptionMeta = m\<rparr>"

definition example_lib :: helpers where
  "example_lib = \<lparr>CloudURLFromString = (\<lambda>s e. Inr \<lparr>bucket = s, object = []\<rparr>),
          getRawMarker = getRawMarker_spec,
          ossClient = (\<lambda>name. None),
          GetCloudUrl = (\<lambda>s e. Inr \<lparr>bucket = ''bkt'', object = ''obj''\<rparr>),
          MaxAppendObjectSize = 5368709120,
          parseHeaders = (\<lambda>s ignore. Inr [(''X-Oss-Meta-Author'', ''chanju'')]),
          getOSSOptions = (\<lambda>metas. Inr (map (\<lambda>(k, v). oss_Header k v) metas))\<rparr>"

definition example_platform :: "int \<Rightarrow> bool \<Rightarrow> platform" where
  "example_platform sz exists =
     \<lparr>Stat = (\<lambda>name. Inr \<lparr>IsDir = False, Size = sz\<rparr>),
      OpenFile = (\<lambda>name. None),
      Bucket = (\<lambda>name. None),
      IsObjectExist = (\<lambda>name. Inr exists),
      GetObjectMeta = (\<lambda>name. Inr (\<lambda>key. if key = ''Content-Length'' then ''1024'' else [])),
      ParseInt = (\<lambda>s. if s = ''1024'' then Inr 1024 else Inl (ExternalError ''invalid syntax'')),
      AppendObject = (\<lambda>name position options. Inr (position + sz))\<rparr>"



definition example_failure :: "ListCloudBoxResult \<times> error option" where
  "example_failure = (example_page ''stale'' True [], Some (ExternalError ''timeout''))"

section \<open>The retry loop\<close>

lemma retry_returns:
  assumes "script w = r # rest" and "snd r = None \<or> i \<ge> rt"
  shows "ossListCloudBoxesRetry_from rt i options w =
           (Some r, w\<lparr>script := rest, trace := trace w @ [CallListCloudBoxes options]\<rparr>)"
  using assms
  by (cases r) (auto simp: ossListCloudBoxesRetry_from.simps [of rt i options w]
      ListCloudBoxes_def emit_def)

lemma retry_blocked:
  assumes "script w = []"
  shows "ossListCloudBoxesRetry_from rt i options w =
           (None, w\<lparr>trace := trace w @ [CallListCloudBoxes options]\<rparr>)"
  using assms
  by (simp add: ossListCloudBoxesRetry_from.simps [of rt i options w]
      ListCloudBoxes_def emit_def)

lemma retry_again:
  assumes "script w = r # rest" and "snd r \<noteq> None" and "i < rt"
  shows "ossListCloudBoxesRetry_from rt i options w =
           ossListCloudBoxesRetry_from rt (i + 1) options
             (w\<lparr>script := rest, trace := trace w @ [CallListCloudBoxes options]\<rparr>)"
  using assms
  by (cases r) (auto simp: ossListCloudBoxesRetry_from.simps [of rt i options w]
      ListCloudBoxes_def emit_def)

lemma retry_skips_failures:
  assumes "script w = fails @ rest" and "\<forall>f \<in> set fails. snd f \<noteq> None"
    and "i + int (length fails) \<le> rt"
  shows "ossListCloudBoxesRetry_from rt i options w =
           ossListCloudBoxesRetry_from rt (i + int (length fails)) options
             (w\<lparr>script := rest,
                trace := trace w @ replicate (length fails) (CallListCloudBoxes options)\<rparr>)"
  using assms
proof (induction fails arbitrary: i w)
  case Nil
  then have "w\<lparr>script := rest\<rparr> = w" by (cases w) simp
  then show ?case by simp
next
  case (Cons f fails)
  let ?w1 = "w\<lparr>script := fails @ rest, trace := trace w @ [CallListCloudBoxes options]\<rparr>"
  have "ossListCloudBoxesRetry_from rt i options w =
          ossListCloudBoxesRetry_from rt (i + 1) options ?w1"
    using Cons.prems by (intro retry_again) auto
  also have "\<dots> = ossListCloudBoxesRetry_from rt (i + 1 + int (length fails)) options
       (?w1\<lparr>script := rest,
            trace := trace ?w1 @ replicate (length fails) (CallListCloudBoxes options)\<rparr>)"
    using Cons.prems by (intro Cons.IH) auto
  finally show ?case
    by (simp add: replicate_append_same algebra_simps)
qed

lemma retry_success_after_failures:
  assumes "script w = fails @ (lbr, None) # rest" and "\<forall>f \<in> set fails. snd f \<noteq> None"
    and "int (length fails) \<le> OptionRetryTimes cmd - 1"
  shows "ossListCloudBoxesRetry cmd options w =
           (Some (lbr, None),
            w\<lparr>script := rest,
              trace := trace w @ replicate (length fails + 1) (CallListCloudBoxes options)\<rparr>)"
proof -
  let ?w1 = "w\<lparr>script := (lbr, None) # rest,
              trace := trace w @ replicate (length fails) (CallListCloudBoxes options)\<rparr>"
  have "ossListCloudBoxesRetry_from (OptionRetryTimes cmd) 1 options w =
          ossListCloudBoxesRetry_from (OptionRetryTimes cmd) (1 + int (length fails)) options ?w1"
    using assms by (intro retry_skips_failures) auto
  also have "\<dots> = (Some (lbr, None),
       ?w1\<lparr>script := rest, trace := trace ?w1 @ [CallListCloudBoxes options]\<rparr>)"
    by (intro retry_returns) auto
  finally show ?thesis
    by (simp add: ossListCloudBoxesRetry_def replicate_append_same)
qed

lemma retry_persistent_failure:
  assumes "script w = fails @ rest" and "\<forall>f \<in> set fails. snd f \<noteq> None"
    and "length fails = nat (max 1 (OptionRetryTimes cmd))"
  shows "ossListCloudBoxesRetry cmd options w =
           (Some (last fails),
            w\<lparr>script := rest,
              trace := trace w @ replicate (length fails) (CallListCloudBoxes options)\<rparr>)"
proof -
  from assms(3) have ne: "fails \<noteq> []" by auto
  then obtain init l where split: "fails = init @ [l]"
    by (cases fails rule: rev_cases) auto
  define n where "n = length init"
  let ?w1 = "w\<lparr>script := l # rest,
              trace := trace w @ replicate n (CallListCloudBoxes options)\<rparr>"
  have len: "length fails = Suc n" using split n_def by simp
  have k: "1 + int n = max 1 (OptionRetryTimes cmd)"
    using assms(3) len by (simp add: nat_eq_iff)
  have scr: "script w = init @ l # rest"
    using assms(1) split by simp
  have "ossListCloudBoxesRetry_from (OptionRetryTimes cmd) 1 options w =
          ossListCloudBoxesRetry_from (OptionRetryTimes cmd) (1 + int n) options ?w1"
  proof (cases "init = []")
    case True
    with scr n_def have "?w1 = w" by (cases w) simp
    with True n_def show ?thesis by simp
  next
    case False
    then have "0 < n" using n_def by simp
    with k have "1 + int (length init) \<le> OptionRetryTimes cmd"
      by (simp add: n_def max_def split: if_splits)
    with scr assms(2) split show ?thesis
      unfolding n_def by (intro retry_skips_failures) auto
  qed
  also have "\<dots> = (Some l,
       ?w1\<lparr>script := rest, trace := trace ?w1 @ [CallListCloudBoxes options]\<rparr>)"
    using k assms(2) split by (intro retry_returns) auto
  finally have "ossListCloudBoxesRetry_from (OptionRetryTimes cmd) 1 options w =
      (Some l,
       w\<lparr>script := rest,
         trace := trace w @ replicate (Suc n) (CallListCloudBoxes options)\<rparr>)"
    by (simp add: replicate_append_same)
  with len split show ?thesis
    by (simp add: ossListCloudBoxesRetry_def)
qed

lemma retry_trace:
  "\<exists>k. trace (snd (ossListCloudBoxesRetry_from rt i options w)) =
         trace w @ replicate (Suc k) (CallListCloudBoxes options)"
proof (induction rt i options w rule: ossListCloudBoxesRetry_from.induct)
  case (1 rt i options w)
  show ?case
  proof (cases "script w")
    case Nil
    then have "trace (snd (ossListCloudBoxesRetry_from rt i options w)) =
        trace w @ replicate (Suc 0) (CallListCloudBoxes options)"
      by (simp add: retry_blocked)
    then show ?thesis by blast
  next
    case (Cons r rest)
    let ?w1 = "w\<lparr>script := rest, trace := trace w @ [CallListCloudBoxes options]\<rparr>"
    have call: "ListCloudBoxes options w = (Some r, ?w1)"
      using Cons by (simp add: ListCloudBoxes_def emit_def)
    show ?thesis
    proof (cases "snd r = None \<or> i \<ge> rt")
      case True
      with Cons have "trace (snd (ossListCloudBoxesRetry_from rt i options w)) =
        trace w @ replicate (Suc 0) (CallListCloudBoxes options)"
        by (simp add: retry_returns)
      then show ?thesis by blast
    next
      case False
      then have again: "ossListCloudBoxesRetry_from rt i options w =
          ossListCloudBoxesRetry_from rt (i + 1) options ?w1"
        using Cons by (intro retry_again) auto
      obtain lbr err where r: "r = (lbr, err)" by (cases r)
      from "1.IH" [OF call [symmetric] refl r [symmetric]] False r
      obtain k where "trace (snd (ossListCloudBoxesRetry_from rt (i + 1) options ?w1)) =
         trace ?w1 @ replicate (Suc k) (CallListCloudBoxes options)"
        by auto
      with again have "trace (snd (ossListCloudBoxesRetry_from rt i options w)) =
         trace w @ replicate (Suc (Suc k)) (CallListCloudBoxes options)"
        by simp
      then show ?thesis by blast
    qed
  qed
qed

section \<open>The page loop\<close>

declare RunCommand_loop.simps [simp del]

lemma printed_boxes_append [simp]:
  "printed_boxes (xs @ ys) = printed_boxes xs @ printed_boxes ys"
  by (simp add: printed_boxes_def map_filter_def)

lemma list_requests_append [simp]:
  "list_requests (xs @ ys) = list_requests xs @ list_requests ys"
  by (simp add: list_requests_def map_filter_def)

lemma printed_boxes_simps [simp]:
  "printed_boxes [] = []"
  "printed_boxes (PrintBox b # es) = b # printed_boxes es"
  "printed_boxes (PrintHeader # es) = printed_boxes es"
  "printed_boxes (CallListCloudBoxes options # es) = printed_boxes es"
  "printed_boxes (CallOssClient name # es) = printed_boxes es"
  by (simp_all add: printed_boxes_def map_filter_def)

lemma list_requests_simps [simp]:
  "list_requests [] = []"
  "list_requests (PrintBox b # es) = list_requests es"
  "list_requests (PrintHeader # es) = list_requests es"
  "list_requests (CallListCloudBoxes options # es) = options # list_requests es"
  "list_requests (CallOssClient name # es) = list_requests es"
  by (simp_all add: list_requests_def map_filter_def)

lemma printed_boxes_map_PrintBox [simp]: "printed_boxes (map PrintBox bs) = bs"
  by (induction bs) simp_all

lemma list_requests_map_PrintBox [simp]: "list_requests (map PrintBox bs) = []"
  by (induction bs) simp_all

lemma print_boxes_trace:
  "\<exists>bs'. print_boxes lim bs num w = (num + int (length bs'), w\<lparr>trace := trace w @ map PrintBox bs'\<rparr>)
     \<and> bs' = (if lim < 0 then bs else take (nat (lim - num)) bs)"
proof (induction bs arbitrary: num w)
  case Nil
  have "w\<lparr>trace := trace w\<rparr> = w" by (cases w) simp
  then show ?case by simp
next
  case (Cons b bs)
  show ?case
  proof (cases "lim \<ge> 0 \<and> num \<ge> lim")
    case True
    have "w\<lparr>trace := trace w\<rparr> = w" by (cases w) simp
    with True show ?thesis by simp
  next
    case False
    from Cons.IH [of "num + 1" "emit (PrintBox b) w"]
    have "print_boxes lim bs (num + 1) (emit (PrintBox b) w) =
       (num + 1 + int (length (if lim < 0 then bs else take (nat (lim - (num + 1))) bs)),
        (emit (PrintBox b) w)\<lparr>trace := trace (emit (PrintBox b) w) @
           map PrintBox (if lim < 0 then bs else take (nat (lim - (num + 1))) bs)\<rparr>)"
      by simp
    moreover have "take (nat (lim - num)) (b # bs) = b # take (nat (lim - (num + 1))) bs"
      if "\<not> lim < 0"
    proof -
      from that False have "nat (lim - num) = Suc (nat (lim - (num + 1)))" by linarith
      then show ?thesis by simp
    qed
    ultimately show ?thesis
      using False by (cases "lim < 0") (simp_all add: emit_def)
  qed
qed

lemma loop_exit:
  "\<not> (lim < 0 \<or> num < lim) \<Longrightarrow> RunCommand_loop cmd lim pre mark num w = (Some None, w)"
  by (simp add: RunCommand_loop.simps [of cmd lim pre mark num w])

lemma loop_page:
  assumes "lim < 0 \<or> num < lim"
    and "ossListCloudBoxesRetry cmd [pre, mark] w = (Some (lcr, None), w1)"
  shows "RunCommand_loop cmd lim pre mark num w =
     (let w2 = (if num = 0 \<and> length (CloudBoxes lcr) > 0 then emit PrintHeader w1 else w1);
          nw = print_boxes lim (CloudBoxes lcr) num w2
      in if \<not> IsTruncated lcr then (Some None, snd nw)
         else RunCommand_loop cmd lim (oss_Prefix (Prefix lcr))
                (oss_Marker (NextMarker lcr)) (fst nw) (snd nw))"
  using assms by (simp add: RunCommand_loop.simps [of cmd lim pre mark num w])

lemma loop_error:
  assumes "lim < 0 \<or> num < lim"
    and "ossListCloudBoxesRetry cmd [pre, mark] w = (Some (lcr, Some err), w1)"
  shows "RunCommand_loop cmd lim pre mark num w = (Some (Some err), w1)"
  using assms by (simp add: RunCommand_loop.simps [of cmd lim pre mark num w])

lemma loop_blocked:
  assumes "lim < 0 \<or> num < lim"
    and "ossListCloudBoxesRetry cmd [pre, mark] w = (None, w1)"
  shows "RunCommand_loop cmd lim pre mark num w = (None, w1)"
  using assms by (simp add: RunCommand_loop.simps [of cmd lim pre mark num w])

lemma allowed_append:
  "lim < 0 \<or> num \<le> lim \<Longrightarrow>
   allowed lim num (xs @ ys) =
     allowed lim num xs @ allowed lim (num + int (length (allowed lim num xs))) ys"
  unfolding allowed_def
  by (cases "lim < 0") (auto simp: take_all_iff min_def nat_diff_distrib' intro!: arg_cong2 [where f = take])

lemma loop_first_page:
  assumes "lim < 0 \<or> num < lim" and "script w = (p, None) # rest"
  shows "\<exists>w3. printed_boxes (trace w3) = printed_boxes (trace w) @ allowed lim num (CloudBoxes p)
           \<and> list_requests (trace w3) = list_requests (trace w) @ [[pre, mark]]
           \<and> script w3 = rest
           \<and> RunCommand_loop cmd lim pre mark num w =
               (if \<not> IsTruncated p then (Some None, w3)
                else RunCommand_loop cmd lim (oss_Prefix (Prefix p)) (oss_Marker (NextMarker p))
                       (num + int (length (allowed lim num (CloudBoxes p)))) w3)"
proof -
  let ?w1 = "w\<lparr>script := rest, trace := trace w @ [CallListCloudBoxes [pre, mark]]\<rparr>"
  let ?w2 = "if num = 0 \<and> length (CloudBoxes p) > 0 then emit PrintHeader ?w1 else ?w1"
  have fetch: "ossListCloudBoxesRetry cmd [pre, mark] w = (Some (p, None), ?w1)"
    using assms(2) by (simp add: ossListCloudBoxesRetry_def retry_returns)
  obtain bs' where pb: "print_boxes lim (CloudBoxes p) num ?w2 =
      (num + int (length bs'), ?w2\<lparr>trace := trace ?w2 @ map PrintBox bs'\<rparr>)"
    and bs': "bs' = allowed lim num (CloudBoxes p)"
    using print_boxes_trace [of lim "CloudBoxes p" num ?w2] unfolding allowed_def by blast
  let ?w3 = "?w2\<lparr>trace := trace ?w2 @ map PrintBox bs'\<rparr>"
  have "printed_boxes (trace ?w3) = printed_boxes (trace w) @ allowed lim num (CloudBoxes p)"
    using bs' by (simp add: emit_def)
  moreover have "list_requests (trace ?w3) = list_requests (trace w) @ [[pre, mark]]"
    by (simp add: emit_def)
  moreover have "script ?w3 = rest"
    by (simp add: emit_def)
  moreover have "RunCommand_loop cmd lim pre mark num w =
               (if \<not> IsTruncated p then (Some None, ?w3)
                else RunCommand_loop cmd lim (oss_Prefix (Prefix p)) (oss_Marker (NextMarker p))
                       (num + int (length (allowed lim num (CloudBoxes p)))) ?w3)"
    unfolding loop_page [OF assms(1) fetch] Let_def pb using bs' by simp
  ultimately show ?thesis by blast
qed

lemma fetched_unlimited: "lim < 0 \<Longrightarrow> fetched lim num pages = pages"
  by (induction pages arbitrary: num) simp_all

lemma loop_pages:
  assumes "page_sequence pages" and "script w = map (\<lambda>p. (p, None)) pages @ rest"
    and "lim < 0 \<or> num \<le> lim"
  shows "\<exists>w'. RunCommand_loop cmd lim pre mark num w = (Some None, w')
           \<and> printed_boxes (trace w') =
               printed_boxes (trace w) @ allowed lim num (concat (map CloudBoxes pages))
           \<and> list_requests (trace w') =
               list_requests (trace w) @ cursors [pre, mark] (fetched lim num pages)"
  using assms
proof (induction pages arbitrary: pre mark num w rule: page_sequence.induct)
  case 1
  then show ?case by simp
next
  case (2 p)
  show ?case
  proof (cases "lim < 0 \<or> num < lim")
    case False
    with 2 have "num = lim" "\<not> lim < 0" by auto
    with False show ?thesis by (simp add: loop_exit allowed_def)
  next
    case True
    from 2 have "script w = (p, None) # rest" "\<not> IsTruncated p" by simp_all
    with loop_first_page [OF True, of w p rest pre mark cmd] True show ?thesis by auto
  qed
next
  case (3 p q ps)
  show ?case
  proof (cases "lim < 0 \<or> num < lim")
    case False
    with 3 have "num = lim" "\<not> lim < 0" by auto
    with False show ?thesis by (simp add: loop_exit allowed_def)
  next
    case True
    let ?n = "num + int (length (allowed lim num (CloudBoxes p)))"
    let ?pre = "oss_Prefix (Prefix p)"
    let ?mark = "oss_Marker (NextMarker p)"
    from 3 have scr: "script w = (p, None) # (map (\<lambda>p. (p, None)) (q # ps) @ rest)"
      and tr: "IsTruncated p" and seq: "page_sequence (q # ps)" by simp_all
    from loop_first_page [OF True scr, of pre mark cmd] tr
    obtain w3 where w3: "printed_boxes (trace w3) = printed_boxes (trace w) @ allowed lim num (CloudBoxes p)"
      "script w3 = map (\<lambda>p. (p, None)) (q # ps) @ rest"
      "RunCommand_loop cmd lim pre mark num w = RunCommand_loop cmd lim ?pre ?mark ?n w3"
      and req3: "list_requests (trace w3) = list_requests (trace w) @ [[pre, mark]]"
      by auto
    have bound: "lim < 0 \<or> ?n \<le> lim"
      using True by (auto simp: allowed_def)
    from "3.IH" [OF seq w3(2) bound, of ?pre ?mark]
    obtain w' where w': "RunCommand_loop cmd lim ?pre ?mark ?n w3 = (Some None, w')"
      "printed_boxes (trace w') =
         printed_boxes (trace w3) @ allowed lim ?n (concat (map CloudBoxes (q # ps)))"
      and req': "list_requests (trace w') =
         list_requests (trace w3) @ cursors [?pre, ?mark] (fetched lim ?n (q # ps))"
      by blast
    have "allowed lim num (concat (map CloudBoxes (p # q # ps))) =
        allowed lim num (CloudBoxes p) @ allowed lim ?n (concat (map CloudBoxes (q # ps)))"
      using "3.prems"(3) allowed_append [of lim num "CloudBoxes p" "concat (map CloudBoxes (q # ps))"]
      by simp
    moreover have "cursors [pre, mark] (fetched lim num (p # q # ps)) =
        [pre, mark] # cursors [?pre, ?mark] (fetched lim ?n (q # ps))"
      using True by simp
    ultimately show ?thesis
      using w3 w' req3 req' by simp
  qed
qed

section \<open>The listing run\<close>

lemma lcb_run_valid:
  assumes "listing_prefix H cmd = Inr prefix"
    and "snd (getRawMarker H (OptionMarker cmd)) = None"
    and "ossClient H [] = None"
  shows "LcbCommand_RunCommand H cmd w =
           RunCommand_loop cmd (OptionLimitedNum cmd) (oss_Prefix prefix)
             (oss_Marker (OptionMarker cmd)) 0 (emit (CallOssClient []) w)"
  using assms
  by (cases "getRawMarker H (OptionMarker cmd)")
    (simp add: LcbCommand_RunCommand_def call_ossClient_def)



lemma retry_trace_cmd:
  "\<exists>k. trace (snd (ossListCloudBoxesRetry cmd options w)) =
         trace w @ replicate (Suc k) (CallListCloudBoxes options)"
  unfolding ossListCloudBoxesRetry_def by (rule retry_trace)

lemma loop_trace_extends:
  "\<exists>ext. trace (snd (RunCommand_loop cmd lim pre mark num w)) = trace w @ ext"
proof (induction cmd lim pre mark num w rule: RunCommand_loop.induct)
  case (1 cmd lim pre mark num w)
  show ?case
  proof (cases "lim < 0 \<or> num < lim")
    case False
    then show ?thesis by (simp add: loop_exit)
  next
    case True
    obtain res w1 where fetch: "ossListCloudBoxesRetry cmd [pre, mark] w = (res, w1)"
      by (cases "ossListCloudBoxesRetry cmd [pre, mark] w")
    from retry_trace_cmd [of cmd "[pre, mark]" w] fetch
    obtain k where w1: "trace w1 = trace w @ replicate (Suc k) (CallListCloudBoxes [pre, mark])"
      by auto
    show ?thesis
    proof (cases res)
      case None
      with True fetch w1 show ?thesis by (simp add: loop_blocked)
    next
      case (Some r)
      obtain lcr err where r: "r = (lcr, err)" by (cases r)
      show ?thesis
      proof (cases err)
        case (Some e)
        with True fetch r \<open>res = Some r\<close> w1 show ?thesis by (simp add: loop_error)
      next
        case None
        let ?w2 = "if num = 0 \<and> length (CloudBoxes lcr) > 0 then emit PrintHeader w1 else w1"
        let ?nw = "print_boxes lim (CloudBoxes lcr) num ?w2"
        have fetch': "ossListCloudBoxesRetry cmd [pre, mark] w = (Some (lcr, None), w1)"
          using fetch r None \<open>res = Some r\<close> by simp
        obtain bs' where "?nw = (num + int (length bs'), ?w2\<lparr>trace := trace ?w2 @ map PrintBox bs'\<rparr>)"
          using print_boxes_trace [of lim "CloudBoxes lcr" num ?w2] by blast
        then have nw: "\<exists>ext. trace (snd ?nw) = trace w @ ext"
          using w1 by (simp add: emit_def)
        show ?thesis
        proof (cases "IsTruncated lcr")
          case False
          with nw show ?thesis
            unfolding loop_page [OF True fetch'] Let_def by simp
        next
          case True': True
          from "1.IH" [OF True fetch [symmetric] \<open>res = Some r\<close> r [symmetric] None refl refl] True'
          obtain ext where "trace (snd (RunCommand_loop cmd lim (oss_Prefix (Prefix lcr))
              (oss_Marker (NextMarker lcr)) (fst ?nw) (snd ?nw))) = trace (snd ?nw) @ ext"
            by auto
          with nw True' show ?thesis
            unfolding loop_page [OF True fetch'] Let_def by auto
        qed
      qed
    qed
  qed
qed

lemma loop_first_request:
  assumes "lim < 0 \<or> num < lim"
  shows "\<exists>later. list_requests (trace (snd (RunCommand_loop cmd lim pre mark num w))) =
           list_requests (trace w) @ [pre, mark] # later"
proof -
  obtain res w1 where fetch: "ossListCloudBoxesRetry cmd [pre, mark] w = (res, w1)"
    by (cases "ossListCloudBoxesRetry cmd [pre, mark] w")
  from retry_trace_cmd [of cmd "[pre, mark]" w] fetch
  obtain k where w1: "trace w1 = trace w @ replicate (Suc k) (CallListCloudBoxes [pre, mark])"
    by auto
  then have first: "\<exists>later. list_requests (trace w1) = list_requests (trace w) @ [pre, mark] # later"
    by simp
  have "\<exists>ext. trace (snd (RunCommand_loop cmd lim pre mark num w)) = trace w1 @ ext"
  proof (cases res)
    case None
    with assms fetch show ?thesis by (simp add: loop_blocked)
  next
    case (Some r)
    obtain lcr err where r: "r = (lcr, err)" by (cases r)
    show ?thesis
    proof (cases err)
      case (Some e)
      with assms fetch r \<open>res = Some r\<close> show ?thesis by (simp add: loop_error)
    next
      case None
      let ?w2 = "if num = 0 \<and> length (CloudBoxes lcr) > 0 then emit PrintHeader w1 else w1"
      let ?nw = "print_boxes lim (CloudBoxes lcr) num ?w2"
      have fetch': "ossListCloudBoxesRetry cmd [pre, mark] w = (Some (lcr, None), w1)"
        using fetch r None \<open>res = Some r\<close> by simp
      obtain bs' where "?nw = (num + int (length bs'), ?w2\<lparr>trace := trace ?w2 @ map PrintBox bs'\<rparr>)"
        using print_boxes_trace [of lim "CloudBoxes lcr" num ?w2] by blast
      then have nw: "\<exists>ext. trace (snd ?nw) = trace w1 @ ext"
        by (simp add: emit_def)
      show ?thesis
      proof (cases "IsTruncated lcr")
        case False
        with nw show ?thesis
          unfolding loop_page [OF assms fetch'] Let_def by simp
      next
        case True
        from loop_trace_extends [of cmd lim "oss_Prefix (Prefix lcr)" "oss_Marker (NextMarker lcr)"
            "fst ?nw" "snd ?nw"] nw True
        show ?thesis
          unfolding loop_page [OF assms fetch'] Let_def by auto
      qed
    qed
  qed
  with first show ?thesis by auto
qed

section \<open>Claims about the listing command\<close>

text \<open>
  C2. With \<open>retryTimes \<ge> 1\<close> attempts allowed, a page request that fails
  \<open>retryTimes - 1\<close> times (or fewer) and then succeeds returns the successful result with
  no error, right after the successful attempt; one that fails on all \<open>retryTimes\<close>
  attempts returns the result and error of the last attempt. A new attempt is made only
  after an error, and nothing happens between two attempts: the trace grows by the
  requests alone.
\<close>

theorem retry_count_respected:
  assumes "1 \<le> OptionRetryTimes cmd" and "\<forall>f \<in> set fails. snd f \<noteq> None"
  shows "(int (length fails) \<le> OptionRetryTimes cmd - 1 \<longrightarrow>
            script w = fails @ (lbr, None) # rest \<longrightarrow>
            ossListCloudBoxesRetry cmd options w =
              (Some (lbr, None),
               w\<lparr>script := rest,
                 trace := trace w @ replicate (length fails + 1) (CallListCloudBoxes options)\<rparr>))
       \<and> (int (length fails) = OptionRetryTimes cmd \<longrightarrow>
            script w = fails @ rest \<longrightarrow>
            ossListCloudBoxesRetry cmd options w =
              (Some (last fails),
               w\<lparr>script := rest,
                 trace := trace w @ replicate (length fails) (CallListCloudBoxes options)\<rparr>))"
proof (intro conjI impI)
  assume "int (length fails) \<le> OptionRetryTimes cmd - 1"
    and "script w = fails @ (lbr, None) # rest"
  with assms(2) show "ossListCloudBoxesRetry cmd options w =
      (Some (lbr, None),
       w\<lparr>script := rest,
         trace := trace w @ replicate (length fails + 1) (CallListCloudBoxes options)\<rparr>)"
    by (intro retry_success_after_failures) auto
next
  assume len: "int (length fails) = OptionRetryTimes cmd" and scr: "script w = fails @ rest"
  from len assms(1) have "length fails = nat (max 1 (OptionRetryTimes cmd))" by simp
  with scr assms(2) show "ossListCloudBoxesRetry cmd options w =
      (Some (last fails),
       w\<lparr>script := rest,
         trace := trace w @ replicate (length fails) (CallListCloudBoxes options)\<rparr>)"
    by (intro retry_persistent_failure) auto
qed

theorem retry_count_respected_witness:
  "ossListCloudBoxesRetry (example_lcb (-1) 3 []) [oss_Prefix [], oss_Marker []]
     \<lparr>script = [example_failure, example_failure, (example_page [] False [''a''], None)],
      trace = []\<rparr>
   = (Some (example_page [] False [''a''], None),
      \<lparr>script = [], trace = replicate 3 (CallListCloudBoxes [oss_Prefix [], oss_Marker []])\<rparr>)
   \<and> ossListCloudBoxesRetry (example_lcb (-1) 3 []) [oss_Prefix [], oss_Marker []]
     \<lparr>script = [example_failure, example_failure, example_failure,
                 (example_page [] False [''a''], None)],
      trace = []\<rparr>
   = (Some example_failure,
      \<lparr>script = [(example_page [] False [''a''], None)],
       trace = replicate 3 (CallListCloudBoxes [oss_Prefix [], oss_Marker []])\<rparr>)"
  using retry_count_respected [of "example_lcb (-1) 3 []" "[example_failure, example_failure]"
      "\<lparr>script = [example_failure, example_failure, (example_page [] False [''a''], None)],
        trace = []\<rparr>"
      "example_page [] False [''a'']" "[]" "[oss_Prefix [], oss_Marker []]"]
    retry_count_respected [of "example_lcb (-1) 3 []"
      "[example_failure, example_failure, example_failure]"
      "\<lparr>script = [example_failure, example_failure, example_failure,
                 (example_page [] False [''a''], None)],
        trace = []\<rparr>"
      "example_page [] False []" "[(example_page [] False [''a''], None)]" "[oss_Prefix [], oss_Marker []]"]
  by (simp add: example_lcb_def example_failure_def numeral_3_eq_3)

text \<open>
  C7. Every attempt of one page fetch is the same request: the trace grows by one or
  more copies of the request with the options the fetch was called with, whatever the
  service answers (also the prefix and marker in the result of a failed attempt).
\<close>

theorem retry_keeps_cursor:
  "\<exists>k. trace (snd (ossListCloudBoxesRetry cmd [oss_Prefix prefix, oss_Marker mark] w)) =
         trace w @ replicate (Suc k) (CallListCloudBoxes [oss_Prefix prefix, oss_Marker mark])"
  by (rule retry_trace_cmd)

text \<open>
  C10. With \<open>retryTimes \<le> 1\<close> (zero and negative values too) a page fetch makes one
  request and returns what that attempt returned, error or not. When every attempt fails,
  the number of attempts is \<open>max 1 retryTimes\<close>.
\<close>

theorem retry_at_least_once:
  "(OptionRetryTimes cmd \<le> 1 \<longrightarrow> script w = r # rest \<longrightarrow>
      ossListCloudBoxesRetry cmd options w =
        (Some r, w\<lparr>script := rest, trace := trace w @ [CallListCloudBoxes options]\<rparr>))
   \<and> ((\<forall>f \<in> set fails. snd f \<noteq> None) \<longrightarrow>
      length fails = nat (max 1 (OptionRetryTimes cmd)) \<longrightarrow>
      script w = fails @ rest \<longrightarrow>
      ossListCloudBoxesRetry cmd options w =
        (Some (last fails),
         w\<lparr>script := rest,
           trace := trace w @
             replicate (nat (max 1 (OptionRetryTimes cmd))) (CallListCloudBoxes options)\<rparr>))"
proof (intro conjI impI)
  assume "OptionRetryTimes cmd \<le> 1" and "script w = r # rest"
  then show "ossListCloudBoxesRetry cmd options w =
      (Some r, w\<lparr>script := rest, trace := trace w @ [CallListCloudBoxes options]\<rparr>)"
    by (simp add: ossListCloudBoxesRetry_def retry_returns)
next
  assume "\<forall>f \<in> set fails. snd f \<noteq> None"
    and len: "length fails = nat (max 1 (OptionRetryTimes cmd))"
    and "script w = fails @ rest"
  then have "ossListCloudBoxesRetry cmd options w =
      (Some (last fails),
       w\<lparr>script := rest,
         trace := trace w @ replicate (length fails) (CallListCloudBoxes options)\<rparr>)"
    by (intro retry_persistent_failure) auto
  with len show "ossListCloudBoxesRetry cmd options w =
      (Some (last fails),
       w\<lparr>script := rest,
         trace := trace w @
           replicate (nat (max 1 (OptionRetryTimes cmd))) (CallListCloudBoxes options)\<rparr>)"
    by simp
qed

theorem retry_at_least_once_witness:
  "ossListCloudBoxesRetry (example_lcb (-1) (-2) []) [oss_Prefix [], oss_Marker []]
     \<lparr>script = [example_failure, (example_page [] False [''a''], None)], trace = []\<rparr>
   = (Some example_failure,
      \<lparr>script = [(example_page [] False [''a''], None)],
       trace = [CallListCloudBoxes [oss_Prefix [], oss_Marker []]]\<rparr>)
   \<and> ossListCloudBoxesRetry (example_lcb (-1) 2 []) [oss_Prefix [], oss_Marker []]
     \<lparr>script = [example_failure, example_failure, example_failure], trace = []\<rparr>
   = (Some example_failure,
      \<lparr>script = [example_failure],
       trace = replicate 2 (CallListCloudBoxes [oss_Prefix [], oss_Marker []])\<rparr>)"
  using retry_at_least_once [of "example_lcb (-1) (-2) []"
      "\<lparr>script = [example_failure, (example_page [] False [''a''], None)], trace = []\<rparr>"
      example_failure "[(example_page [] False [''a''], None)]"
      "[oss_Prefix [], oss_Marker []]" "[]"]
    retry_at_least_once [of "example_lcb (-1) 2 []"
      "\<lparr>script = [example_failure, example_failure, example_failure], trace = []\<rparr>"
      example_failure "[example_failure]"
      "[oss_Prefix [], oss_Marker []]" "[example_failure, example_failure]"]
  by (simp add: example_lcb_def example_failure_def numeral_2_eq_2)

text \<open>
  C3. When every request succeeds and the service delivers a sequence of pages, the
  command returns without error and prints a row for each of the first \<open>limitedNum\<close>
  items of the pages, in order: \<open>min limitedNum total\<close> rows for a limit of zero or
  more, and all the items for a negative limit. The pages are asked for one after the
  other: the first request carries the prefix and marker of the command line, and each
  later request the prefix and next marker of the page before it, so that a service
  which answers by the marker is asked for each page in turn; without a limit every page
  is asked for.
\<close>

theorem listing_prints_min_limit_total:
  assumes "listing_prefix H cmd = Inr prefix"
    and "snd (getRawMarker H (OptionMarker cmd)) = None"
    and "ossClient H [] = None"
    and "page_sequence pages"
    and "script w = map (\<lambda>p. (p, None)) pages"
    and "trace w = []"
  shows "fst (LcbCommand_RunCommand H cmd w) = Some None
     \<and> length (printed_boxes (trace (snd (LcbCommand_RunCommand H cmd w)))) =
         (if 0 \<le> OptionLimitedNum cmd
          then min (nat (OptionLimitedNum cmd)) (length (concat (map CloudBoxes pages)))
          else length (concat (map CloudBoxes pages)))
     \<and> printed_boxes (trace (snd (LcbCommand_RunCommand H cmd w))) =
         (if 0 \<le> OptionLimitedNum cmd
          then take (nat (OptionLimitedNum cmd)) (concat (map CloudBoxes pages))
          else concat (map CloudBoxes pages))
     \<and> list_requests (trace (snd (LcbCommand_RunCommand H cmd w))) =
         cursors [oss_Prefix prefix, oss_Marker (OptionMarker cmd)]
           (fetched (OptionLimitedNum cmd) 0 pages)
     \<and> (OptionLimitedNum cmd < 0 \<longrightarrow>
          list_requests (trace (snd (LcbCommand_RunCommand H cmd w))) =
            cursors [oss_Prefix prefix, oss_Marker (OptionMarker cmd)] pages)"
proof -
  let ?w0 = "emit (CallOssClient []) w"
  let ?lim = "OptionLimitedNum cmd"
  let ?c = "[oss_Prefix prefix, oss_Marker (OptionMarker cmd)]"
  have run: "LcbCommand_RunCommand H cmd w =
      RunCommand_loop cmd ?lim (oss_Prefix prefix) (oss_Marker (OptionMarker cmd)) 0 ?w0"
    using assms(1-3) by (rule lcb_run_valid)
  have "script ?w0 = map (\<lambda>p. (p, None)) pages @ []"
    using assms(5) by (simp add: emit_def)
  moreover have "?lim < 0 \<or> 0 \<le> ?lim" by linarith
  ultimately obtain w' where
    w': "RunCommand_loop cmd ?lim (oss_Prefix prefix) (oss_Marker (OptionMarker cmd)) 0 ?w0 =
          (Some None, w')"
    "printed_boxes (trace w') =
       printed_boxes (trace ?w0) @ allowed ?lim 0 (concat (map CloudBoxes pages))"
    "list_requests (trace w') = list_requests (trace ?w0) @ cursors ?c (fetched ?lim 0 pages)"
    using loop_pages [OF assms(4), of ?w0 "[]" ?lim 0 cmd "oss_Prefix prefix"
        "oss_Marker (OptionMarker cmd)"] by blast
  have start: "printed_boxes (trace ?w0) = []" "list_requests (trace ?w0) = []"
    using assms(6) by (simp_all add: emit_def)
  have rows: "fst (LcbCommand_RunCommand H cmd w) = Some None
     \<and> length (printed_boxes (trace (snd (LcbCommand_RunCommand H cmd w)))) =
         (if 0 \<le> ?lim then min (nat ?lim) (length (concat (map CloudBoxes pages)))
          else length (concat (map CloudBoxes pages)))
     \<and> printed_boxes (trace (snd (LcbCommand_RunCommand H cmd w))) =
         (if 0 \<le> ?lim then take (nat ?lim) (concat (map CloudBoxes pages))
          else concat (map CloudBoxes pages))"
    using run w'(1,2) start(1) by (auto simp: allowed_def)
  have reqs: "list_requests (trace (snd (LcbCommand_RunCommand H cmd w))) =
      cursors ?c (fetched ?lim 0 pages)"
    using run w'(1,3) start(2) by simp
  then have "?lim < 0 \<longrightarrow>
      list_requests (trace (snd (LcbCommand_RunCommand H cmd w))) = cursors ?c pages"
    by (simp add: fetched_unlimited)
  with rows reqs show ?thesis by blast
qed

theorem listing_prints_min_limit_total_witness:
  "fst (LcbCommand_RunCommand example_lib (example_lcb 3 1 [])
         \<lparr>script = [(example_page ''m1'' True [''a'', ''b''], None),
                     (example_page [] False [''c'', ''d''], None)],
          trace = []\<rparr>) = Some None
   \<and> length (printed_boxes (trace (snd (LcbCommand_RunCommand example_lib (example_lcb 3 1 [])
         \<lparr>script = [(example_page ''m1'' True [''a'', ''b''], None),
                     (example_page [] False [''c'', ''d''], None)],
          trace = []\<rparr>)))) = 3
   \<and> list_requests (trace (snd (LcbCommand_RunCommand example_lib (example_lcb 3 1 [])
         \<lparr>script = [(example_page ''m1'' True [''a'', ''b''], None),
                     (example_page [] False [''c'', ''d''], None)],
          trace = []\<rparr>))) =
       [[oss_Prefix [], oss_Marker []], [oss_Prefix ''cb'', oss_Marker ''m1'']]"
  using listing_prints_min_limit_total [of example_lib "example_lcb 3 1 []" "[]"
      "[example_page ''m1'' True [''a'', ''b''], example_page [] False [''c'', ''d'']]"
      "\<lparr>script = [(example_page ''m1'' True [''a'', ''b''], None),
                  (example_page [] False [''c'', ''d''], None)],
        trace = []\<rparr>"]
  by (simp add: example_lib_def example_lcb_def example_page_def listing_prefix_def
      getRawMarker_spec_def allowed_def)




text \<open>
  C8. An iteration of the listing loop whose page fetch returns a page with the truncation
  flag unset ends the run without error: the rest of the script is left untouched and no
  request follows that fetch. In particular, when the first response is such a page
  (and the limit is not zero, so that a first page is asked for), the whole run issues
  exactly one request.
\<close>

theorem listing_stops_when_not_truncated:
  "((lim < 0 \<or> num < lim) \<longrightarrow>
      ossListCloudBoxesRetry cmd [pre, mark] w = (Some (lcr, None), w1) \<longrightarrow>
      \<not> IsTruncated lcr \<longrightarrow>
        fst (RunCommand_loop cmd lim pre mark num w) = Some None
      \<and> script (snd (RunCommand_loop cmd lim pre mark num w)) = script w1
      \<and> list_requests (trace (snd (RunCommand_loop cmd lim pre mark num w))) =
          list_requests (trace w1))
   \<and> (listing_prefix H c = Inr prefix \<longrightarrow>
      snd (getRawMarker H (OptionMarker c)) = None \<longrightarrow>
      ossClient H [] = None \<longrightarrow>
      OptionLimitedNum c \<noteq> 0 \<longrightarrow>
      script s = (p, None) # rest \<longrightarrow>
      \<not> IsTruncated p \<longrightarrow>
        fst (LcbCommand_RunCommand H c s) = Some None
      \<and> script (snd (LcbCommand_RunCommand H c s)) = rest
      \<and> list_requests (trace (snd (LcbCommand_RunCommand H c s))) =
          list_requests (trace s) @ [[oss_Prefix prefix, oss_Marker (OptionMarker c)]])"
proof (intro conjI impI)
  assume go: "lim < 0 \<or> num < lim"
    and fetch: "ossListCloudBoxesRetry cmd [pre, mark] w = (Some (lcr, None), w1)"
    and last: "\<not> IsTruncated lcr"
  let ?w2 = "if num = 0 \<and> length (CloudBoxes lcr) > 0 then emit PrintHeader w1 else w1"
  let ?nw = "print_boxes lim (CloudBoxes lcr) num ?w2"
  have run: "RunCommand_loop cmd lim pre mark num w = (Some None, snd ?nw)"
    unfolding loop_page [OF go fetch] Let_def using last by simp
  obtain bs' where nw: "?nw = (num + int (length bs'), ?w2\<lparr>trace := trace ?w2 @ map PrintBox bs'\<rparr>)"
    using print_boxes_trace [of lim "CloudBoxes lcr" num ?w2] by blast
  show "fst (RunCommand_loop cmd lim pre mark num w) = Some None"
    using run by simp
  show "script (snd (RunCommand_loop cmd lim pre mark num w)) = script w1"
    unfolding run by (simp add: script_print_boxes script_emit)
  show "list_requests (trace (snd (RunCommand_loop cmd lim pre mark num w))) =
          list_requests (trace w1)"
    unfolding run nw by (simp add: emit_def)
next
  assume valid: "listing_prefix H c = Inr prefix"
    "snd (getRawMarker H (OptionMarker c)) = None" "ossClient H [] = None"
    and lim: "OptionLimitedNum c \<noteq> 0"
    and scr: "script s = (p, None) # rest"
    and last: "\<not> IsTruncated p"
  let ?w0 = "emit (CallOssClient []) s"
  let ?pre = "oss_Prefix prefix"
  let ?mark = "oss_Marker (OptionMarker c)"
  have run: "LcbCommand_RunCommand H c s =
      RunCommand_loop c (OptionLimitedNum c) ?pre ?mark 0 ?w0"
    using valid by (rule lcb_run_valid)
  have go: "OptionLimitedNum c < 0 \<or> 0 < OptionLimitedNum c"
    using lim by linarith
  have "script ?w0 = (p, None) # rest"
    using scr by (simp add: emit_def)
  from loop_first_page [OF go this, of ?pre ?mark c] last
  obtain w3 where "list_requests (trace w3) = list_requests (trace ?w0) @ [[?pre, ?mark]]"
    "script w3 = rest"
    "RunCommand_loop c (OptionLimitedNum c) ?pre ?mark 0 ?w0 = (Some None, w3)"
    by auto
  then show "fst (LcbCommand_RunCommand H c s) = Some None"
    "script (snd (LcbCommand_RunCommand H c s)) = rest"
    "list_requests (trace (snd (LcbCommand_RunCommand H c s))) =
          list_requests (trace s) @ [[?pre, ?mark]]"
    unfolding run by (simp_all add: emit_def)
qed

theorem listing_stops_when_not_truncated_witness:
  "fst (RunCommand_loop (example_lcb (-1) 3 []) (-1) (oss_Prefix []) (oss_Marker []) 0
     \<lparr>script = [(example_page ''m1'' False [''a''], None),
                 (example_page [] False [''b''], None)],
      trace = [CallOssClient []]\<rparr>) = Some None
   \<and> fst (LcbCommand_RunCommand example_lib (example_lcb (-1) 3 [])
     \<lparr>script = [(example_page ''m1'' False [''a''], None),
                 (example_page [] False [''b''], None)],
      trace = []\<rparr>) = Some None
   \<and> script (snd (LcbCommand_RunCommand example_lib (example_lcb (-1) 3 [])
     \<lparr>script = [(example_page ''m1'' False [''a''], None),
                 (example_page [] False [''b''], None)],
      trace = []\<rparr>)) = [(example_page [] False [''b''], None)]
   \<and> list_requests (trace (snd (LcbCommand_RunCommand example_lib (example_lcb (-1) 3 [])
     \<lparr>script = [(example_page ''m1'' False [''a''], None),
                 (example_page [] False [''b''], None)],
      trace = []\<rparr>))) = [[oss_Prefix [], oss_Marker []]]"
proof -
  let ?initial = "\<lparr>script = [(example_page ''m1'' False [''a''], None),
                 (example_page [] False [''b''], None)], trace = []\<rparr>"
  let ?started = "\<lparr>script = [(example_page ''m1'' False [''a''], None),
                 (example_page [] False [''b''], None)], trace = [CallOssClient []]\<rparr>"
  let ?fetched = "\<lparr>script = [(example_page [] False [''b''], None)],
       trace = [CallOssClient [], CallListCloudBoxes [oss_Prefix [], oss_Marker []]]\<rparr>"
  let ?cmd = "example_lcb (-1) 3 []"
  have fetch: "ossListCloudBoxesRetry ?cmd [oss_Prefix [], oss_Marker []] ?started =
      (Some (example_page ''m1'' False [''a''], None), ?fetched)"
    by (simp add: ossListCloudBoxesRetry_def retry_returns)
  have last: "\<not> IsTruncated (example_page ''m1'' False [''a''])"
    by (simp add: example_page_def)
  have valid: "listing_prefix example_lib ?cmd = Inr []"
    "snd (getRawMarker example_lib (OptionMarker ?cmd)) = None"
    "ossClient example_lib [] = None" "OptionLimitedNum ?cmd \<noteq> 0"
    by (simp_all add: example_lib_def example_lcb_def listing_prefix_def getRawMarker_spec_def)
  from listing_stops_when_not_truncated [where lim = "-1" and num = 0 and cmd = ?cmd
      and pre = "oss_Prefix []" and mark = "oss_Marker []" and w = ?started
      and lcr = "example_page ''m1'' False [''a'']" and ?w1.0 = ?fetched
      and c = ?cmd and H = example_lib and prefix = "[]"
      and s = ?initial and p = "example_page ''m1'' False [''a'']"
      and rest = "[(example_page [] False [''b''], None)]"]
    fetch last valid
  show ?thesis by (simp add: example_lcb_def)
qed

text \<open>
  C9. When the marker check passes, whatever string \<^verbatim>\<open>getRawMarker\<close> decoded is
  dropped: the first listing request of the run carries the marker exactly as the option
  gave it (for a limit other than zero, so that a request is made at all).
\<close>

theorem first_request_carries_raw_option:
  assumes "listing_prefix H cmd = Inr prefix"
    and "getRawMarker H (OptionMarker cmd) = (decoded, None)"
    and "ossClient H [] = None"
    and "OptionLimitedNum cmd \<noteq> 0"
  shows "\<exists>later. list_requests (trace (snd (LcbCommand_RunCommand H cmd w))) =
           list_requests (trace w) @ [oss_Prefix prefix, oss_Marker (OptionMarker cmd)] # later"
proof -
  have run: "LcbCommand_RunCommand H cmd w =
      RunCommand_loop cmd (OptionLimitedNum cmd) (oss_Prefix prefix)
        (oss_Marker (OptionMarker cmd)) 0 (emit (CallOssClient []) w)"
    using assms(1-3) by (intro lcb_run_valid) simp_all
  have go: "OptionLimitedNum cmd < 0 \<or> 0 < OptionLimitedNum cmd"
    using assms(4) by linarith
  from loop_first_request [OF go, of cmd "oss_Prefix prefix" "oss_Marker (OptionMarker cmd)"
      "emit (CallOssClient []) w"]
  show ?thesis unfolding run by (simp add: emit_def)
qed

theorem first_request_carries_raw_option_witness:
  "getRawMarker example_lib ''a%20b'' = (''a b'', None)
   \<and> (\<exists>later. list_requests (trace (snd (LcbCommand_RunCommand example_lib
         (example_lcb (-1) 3 ''a%20b'')
         \<lparr>script = [(example_page [] False [''a''], None)], trace = []\<rparr>))) =
       [oss_Prefix [], oss_Marker ''a%20b''] # later)"
proof -
  have dec: "getRawMarker example_lib ''a%20b'' = (''a b'', None)"
    by (simp add: example_lib_def getRawMarker_spec_def ishex_def unhex_def) code_simp
  from first_request_carries_raw_option [of example_lib "example_lcb (-1) 3 ''a%20b''" "[]"
      "''a b''" "\<lparr>script = [(example_page [] False [''a''], None)], trace = []\<rparr>"] dec
  show ?thesis
    by (simp add: example_lib_def example_lcb_def listing_prefix_def)
qed

section \<open>The append run\<close>

lemma append_run_checked:
  assumes "2 \<le> length (args cmd)"
    and "GetCloudUrl H (args cmd ! 1) (OptionEncodingType cmd) = Inr url"
    and "object url \<noteq> []"
    and "Stat P (args cmd ! 0) = Inr stat"
    and "\<not> IsDir stat"
    and "Size stat \<le> MaxAppendObjectSize H"
    and "ossClient H (bucket url) = None"
    and "Bucket P (bucket url) = None"
    and "IsObjectExist P (object url) = Inr isExist"
  shows "AppendFileCommand_RunCommand H P cmd tr =
     (let afOption = \<lparr>bucketName = bucket url, objectName = object url,
                       encodingType = OptionEncodingType cmd, fileName = args cmd ! 0,
                       fileSize = Size stat, ossMeta = OptionMeta cmd\<rparr>;
          tr4 = tr @ [CallStat (args cmd ! 0), CallOssClient (bucket url),
                      CallBucket (bucket url), CallIsObjectExist (object url)]
      in if isExist \<and> OptionMeta cmd \<noteq> [] then (Some MetaOnExistingObject, tr4)
         else (case start_position P (object url) isExist tr4 of
                 (Inl err, tr5) \<Rightarrow> (Some err, tr5)
               | (Inr position, tr5) \<Rightarrow> AppendFromFile H P afOption position tr5))"
  using assms by (simp add: AppendFileCommand_RunCommand_def Let_def)

lemma append_run_stops_before_stat:
  assumes "length (args cmd) < 2
      \<or> (\<exists>err. GetCloudUrl H (args cmd ! 1) (OptionEncodingType cmd) = Inl err)
      \<or> (\<exists>url. GetCloudUrl H (args cmd ! 1) (OptionEncodingType cmd) = Inr url \<and> object url = [])"
  shows "\<exists>e. AppendFileCommand_RunCommand H P cmd tr = (Some e, tr)"
  using assms by (auto simp: AppendFileCommand_RunCommand_def)

lemma append_run_oversized:
  assumes "2 \<le> length (args cmd)"
    and "GetCloudUrl H (args cmd ! 1) (OptionEncodingType cmd) = Inr url"
    and "object url \<noteq> []"
    and "Stat P (args cmd ! 0) = Inr stat"
    and "Size stat > MaxAppendObjectSize H"
  shows "AppendFileCommand_RunCommand H P cmd tr =
     (Some (if IsDir stat then IsDirError (args cmd ! 0)
            else BiggerThanMax (args cmd ! 0) (MaxAppendObjectSize H)),
      tr @ [CallStat (args cmd ! 0)])"
  using assms by (simp add: AppendFileCommand_RunCommand_def Let_def)

lemma AppendFromFile_calls:
  assumes "OpenFile P (fileName af) = None"
    and "(if ossMeta af \<noteq> []
          then (case parseHeaders H (ossMeta af) False of
                  Inl err \<Rightarrow> Inl err
                | Inr metas \<Rightarrow> getOSSOptions H metas)
          else Inr []) = Inr options"
  shows "filter is_append_call (snd (AppendFromFile H P af position tr)) =
     filter is_append_call tr @ [CallAppendObject (objectName af) position (options @ [oss_Progress])]"
  using assms(1) unfolding AppendFromFile_def assms(2) Let_def
  by (simp split: sum.splits)

section \<open>Claims about the append command\<close>

text \<open>
  C1 as stated does not hold: the command learns that the object exists from the
  service, so the existence check is a network call made before the error. What holds:
  when the existence check reports the object and \<^verbatim>\<open>--meta\<close> is not empty, the command
  returns the error right after that check. The checks before it being passed, the calls
  made are \<^verbatim>\<open>os.Stat\<close>, the client and bucket constructors and the existence check:
  no metadata call, no opening of the file, no append.
\<close>

theorem meta_on_existing_object_rejected:
  assumes "2 \<le> length (args cmd)"
    and "GetCloudUrl H (args cmd ! 1) (OptionEncodingType cmd) = Inr url"
    and "object url \<noteq> []"
    and "Stat P (args cmd ! 0) = Inr stat"
    and "\<not> IsDir stat"
    and "Size stat \<le> MaxAppendObjectSize H"
    and "ossClient H (bucket url) = None"
    and "Bucket P (bucket url) = None"
    and "IsObjectExist P (object url) = Inr True"
    and "OptionMeta cmd \<noteq> []"
  shows "AppendFileCommand_RunCommand H P cmd [] =
           (Some MetaOnExistingObject,
            [CallStat (args cmd ! 0), CallOssClient (bucket url), CallBucket (bucket url),
             CallIsObjectExist (object url)])"
  using assms(10) by (simp add: append_run_checked [OF assms(1-9)])

theorem meta_on_existing_object_rejected_witness:
  "AppendFileCommand_RunCommand example_lib (example_platform 4096 True)
       (example_append ''X-Oss-Meta-Author:chanju'') [] =
     (Some MetaOnExistingObject,
      [CallStat ''local.bin'', CallOssClient ''bkt'', CallBucket ''bkt'',
       CallIsObjectExist ''obj''])"
  using meta_on_existing_object_rejected [of "example_append ''X-Oss-Meta-Author:chanju''"
      example_lib "\<lparr>bucket = ''bkt'', object = ''obj''\<rparr>" "example_platform 4096 True"
      "\<lparr>IsDir = False, Size = 4096\<rparr>"]
  by (simp add: example_lib_def example_platform_def example_append_def)

theorem meta_on_existing_object_counterexample:
  "fst (AppendFileCommand_RunCommand example_lib (example_platform 10 True)
       (example_append ''X-Oss-Meta-Author:chanju'') []) = Some MetaOnExistingObject
   \<and> filter is_network_call
       (snd (AppendFileCommand_RunCommand example_lib (example_platform 10 True)
         (example_append ''X-Oss-Meta-Author:chanju'') [])) = [CallIsObjectExist ''obj'']"
  by (simp add: AppendFileCommand_RunCommand_def example_lib_def example_platform_def
      example_append_def)

text \<open>
  C5. When \<^verbatim>\<open>os.Stat\<close> reports a size above \<^verbatim>\<open>MaxAppendObjectSize\<close>, the command
  returns an error, and the file is never opened nor the service called. The checks
  before the size check being passed, the error is the one of the size check.
\<close>

theorem oversized_file_never_opened:
  assumes "2 \<le> length (args cmd)"
    and "Stat P (args cmd ! 0) = Inr stat"
    and "Size stat > MaxAppendObjectSize H"
  shows "fst (AppendFileCommand_RunCommand H P cmd []) \<noteq> None
     \<and> filter is_open_file (snd (AppendFileCommand_RunCommand H P cmd [])) = []
     \<and> filter is_network_call (snd (AppendFileCommand_RunCommand H P cmd [])) = []
     \<and> (\<forall>url. GetCloudUrl H (args cmd ! 1) (OptionEncodingType cmd) = Inr url \<longrightarrow>
          object url \<noteq> [] \<longrightarrow> \<not> IsDir stat \<longrightarrow>
          AppendFileCommand_RunCommand H P cmd [] =
            (Some (BiggerThanMax (args cmd ! 0) (MaxAppendObjectSize H)),
             [CallStat (args cmd ! 0)]))"
proof (cases "GetCloudUrl H (args cmd ! 1) (OptionEncodingType cmd)")
  case (Inl err)
  then have "\<exists>e. AppendFileCommand_RunCommand H P cmd [] = (Some e, [])"
    by (intro append_run_stops_before_stat) simp
  with Inl show ?thesis by auto
next
  case (Inr url)
  show ?thesis
  proof (cases "object url = []")
    case True
    with Inr have "\<exists>e. AppendFileCommand_RunCommand H P cmd [] = (Some e, [])"
      by (intro append_run_stops_before_stat) simp
    with Inr True show ?thesis by auto
  next
    case False
    from append_run_oversized [OF assms(1) Inr False assms(2,3), of "[]"] Inr
    show ?thesis by simp
  qed
qed

theorem oversized_file_never_opened_witness:
  "AppendFileCommand_RunCommand example_lib (example_platform 5368709121 False)
       (example_append []) [] =
     (Some (BiggerThanMax ''local.bin'' 5368709120), [CallStat ''local.bin''])"
  using oversized_file_never_opened [of "example_append []" "example_platform 5368709121 False"
      "\<lparr>IsDir = False, Size = 5368709121\<rparr>" example_lib]
  by (simp add: example_lib_def example_platform_def example_append_def)

text \<open>
  C6. The checks up to the existence check being passed and the file opening: when the
  object exists, the one append call of the run is made at the position
  \<^verbatim>\<open>strconv.ParseInt\<close> reads from the \<^verbatim>\<open>Content-Length\<close> of the metadata call; when
  it does not exist, the one append call is made at position zero.
\<close>

theorem append_issued_at_start_position:
  assumes "2 \<le> length (args cmd)"
    and "GetCloudUrl H (args cmd ! 1) (OptionEncodingType cmd) = Inr url"
    and "object url \<noteq> []"
    and "Stat P (args cmd ! 0) = Inr stat"
    and "\<not> IsDir stat"
    and "Size stat \<le> MaxAppendObjectSize H"
    and "ossClient H (bucket url) = None"
    and "Bucket P (bucket url) = None"
    and "IsObjectExist P (object url) = Inr isExist"
    and "OpenFile P (args cmd ! 0) = None"
  shows "(isExist \<longrightarrow> OptionMeta cmd = [] \<longrightarrow>
            GetObjectMeta P (object url) = Inr props \<longrightarrow>
            ParseInt P (props ''Content-Length'') = Inr n \<longrightarrow>
            filter is_append_call (snd (AppendFileCommand_RunCommand H P cmd [])) =
              [CallAppendObject (object url) n [oss_Progress]])
     \<and> (\<not> isExist \<longrightarrow>
            (OptionMeta cmd = [] \<and> options = []
             \<or> OptionMeta cmd \<noteq> [] \<and> parseHeaders H (OptionMeta cmd) False = Inr metas
                \<and> getOSSOptions H metas = Inr options) \<longrightarrow>
            filter is_append_call (snd (AppendFileCommand_RunCommand H P cmd [])) =
              [CallAppendObject (object url) 0 (options @ [oss_Progress])])"
proof (intro conjI impI)
  assume "isExist" "OptionMeta cmd = []" "GetObjectMeta P (object url) = Inr props"
    "ParseInt P (props ''Content-Length'') = Inr n"
  then show "filter is_append_call (snd (AppendFileCommand_RunCommand H P cmd [])) =
              [CallAppendObject (object url) n [oss_Progress]]"
    using assms(10)
    by (simp add: append_run_checked [OF assms(1-9)] start_position_def
        AppendFromFile_calls [where options = "[]"])
next
  assume "\<not> isExist"
    and "OptionMeta cmd = [] \<and> options = []
      \<or> OptionMeta cmd \<noteq> [] \<and> parseHeaders H (OptionMeta cmd) False = Inr metas
         \<and> getOSSOptions H metas = Inr options"
  then show "filter is_append_call (snd (AppendFileCommand_RunCommand H P cmd [])) =
              [CallAppendObject (object url) 0 (options @ [oss_Progress])]"
    using assms(10)
    by (auto simp: append_run_checked [OF assms(1-9)] start_position_def
        AppendFromFile_calls [where options = options])
qed

theorem append_issued_at_start_position_witness:
  "filter is_append_call (snd (AppendFileCommand_RunCommand example_lib
       (example_platform 10 True) (example_append []) [])) =
     [CallAppendObject ''obj'' 1024 [oss_Progress]]
   \<and> filter is_append_call (snd (AppendFileCommand_RunCommand example_lib
       (example_platform 10 False) (example_append ''X-Oss-Meta-Author:chanju'') [])) =
     [CallAppendObject ''obj'' 0 [oss_Header ''X-Oss-Meta-Author'' ''chanju'', oss_Progress]]"
  using append_issued_at_start_position [of "example_append []" example_lib
      "\<lparr>bucket = ''bkt'', object = ''obj''\<rparr>" "example_platform 10 True"
      "\<lparr>IsDir = False, Size = 10\<rparr>" True
      "\<lambda>key. if key = ''Content-Length'' then ''1024'' else []" 1024 "[]" "[]"]
    append_issued_at_start_position [of "example_append ''X-Oss-Meta-Author:chanju''"
      example_lib "\<lparr>bucket = ''bkt'', object = ''obj''\<rparr>" "example_platform 10 False"
      "\<lparr>IsDir = False, Size = 10\<rparr>" False
      "\<lambda>key. []" 0 "[oss_Header ''X-Oss-Meta-Author'' ''chanju'']"
      "[(''X-Oss-Meta-Author'', ''chanju'')]"]
  by (simp add: example_lib_def example_platform_def example_append_def)

end
